theory Spec2Isabelle
  imports Main "HOL-Library.Sublist" "HOL-Library.Char_ord" "HOL-Library.List_Lexorder"
begin

section \<open>Text helpers of the Python runtime\<close>

text \<open>
  Python text is modelled as \<open>string\<close>; a character is a code point from 0 to 255
  (ASCII and the Latin-1 supplement). The helpers below are the string methods and regular
  expressions that \<open>main.py\<close> calls. The classes \<open>isdigit\<close>, \<open>isupper\<close>, \<open>islower\<close> and
  \<open>isalnum\<close> are the ranges \<open>0-9\<close>, \<open>A-Z\<close> and \<open>a-z\<close> of the regular expressions.
\<close>

definition ord :: "char \<Rightarrow> nat" where
  "ord c = of_char c"

definition isdigit :: "char \<Rightarrow> bool" where
  "isdigit c = (48 \<le> ord c \<and> ord c \<le> 57)"

definition isupper :: "char \<Rightarrow> bool" where
  "isupper c = (65 \<le> ord c \<and> ord c \<le> 90)"

definition islower :: "char \<Rightarrow> bool" where
  "islower c = (97 \<le> ord c \<and> ord c \<le> 122)"

definition isalnum :: "char \<Rightarrow> bool" where
  "isalnum c = (isdigit c \<or> isupper c \<or> islower c)"

text \<open>Whitespace of \<open>str.split()\<close>: tab to carriage return, the four separators 0x1c to
  0x1f, the space, the next-line control 0x85 and the no-break space 0xa0.\<close>

definition isspace :: "char \<Rightarrow> bool" where
  "isspace c =
     ((9 \<le> ord c \<and> ord c \<le> 13) \<or> (28 \<le> ord c \<and> ord c \<le> 32) \<or> ord c = 133 \<or> ord c = 160)"

text \<open>\<open>str.lower()\<close> of one character: the ASCII capitals, and the Latin-1 capitals 0xc0 to
  0xde except the multiplication sign 0xd7, move up by 32.\<close>

definition lower_char :: "char \<Rightarrow> char" where
  "lower_char c =
     (if isupper c \<or> (192 \<le> ord c \<and> ord c \<le> 222 \<and> ord c \<noteq> 215)
      then char_of (ord c + 32) else c)"

definition lower :: "string \<Rightarrow> string" where
  "lower s = map lower_char s"

text \<open>\<open>s.rsplit(sep, 1)\<close>: one part when the separator is absent, otherwise the part before
  the last separator and the part after it.\<close>

definition rsplit1 :: "char \<Rightarrow> string \<Rightarrow> string list" where
  "rsplit1 sep s =
     (if sep \<in> set s
      then [rev (tl (dropWhile (\<lambda>c. c \<noteq> sep) (rev s))), rev (takeWhile (\<lambda>c. c \<noteq> sep) (rev s))]
      else [s])"

text \<open>\<open>s.split()\<close>: the maximal runs of characters that are not whitespace.\<close>

fun split_acc :: "string \<Rightarrow> string \<Rightarrow> string list" where
  "split_acc [] w = (if w = [] then [] else [w])"
| "split_acc (c # cs) w =
     (if isspace c then (if w = [] then split_acc cs [] else w # split_acc cs [])
      else split_acc cs (w @ [c]))"

definition split_ws :: "string \<Rightarrow> string list" where
  "split_ws s = split_acc s []"

fun join :: "string \<Rightarrow> string list \<Rightarrow> string" where
  "join sep [] = []"
| "join sep [w] = w"
| "join sep (w # ws) = w @ sep @ join sep ws"

text \<open>\<open>s.strip(chars)\<close>.\<close>

definition strip :: "string \<Rightarrow> string \<Rightarrow> string" where
  "strip chars s =
     rev (dropWhile (\<lambda>c. c \<in> set chars) (rev (dropWhile (\<lambda>c. c \<in> set chars) s)))"

text \<open>The character class \<open>[A-Za-z0-9_.-]\<close>, which both \<open>main.py\<close> and werkzeug negate.\<close>

definition filename_char :: "char \<Rightarrow> bool" where
  "filename_char c = (isalnum c \<or> c = CHR ''_'' \<or> c = CHR ''.'' \<or> c = CHR ''-'')"

text \<open>\<open>os.path.basename\<close> on POSIX: what follows the last slash.\<close>

definition basename :: "string \<Rightarrow> string" where
  "basename p = rev (takeWhile (\<lambda>c. c \<noteq> CHR ''/'') (rev p))"

definition endswith :: "string \<Rightarrow> string \<Rightarrow> bool" where
  "endswith s suf = suffix suf s"

section \<open>werkzeug's \<open>secure_filename\<close>\<close>

text \<open>
  \<open>secure_filename\<close> is imported from werkzeug. On a POSIX host it folds the name to ASCII
  (\<open>unicodedata.normalize("NFKD", filename)\<close>, then \<open>encode("ascii", "ignore")\<close>),
  turns each \<open>/\<close> into a space, joins the whitespace-separated words with \<open>_\<close>, deletes every
  character outside \<open>[A-Za-z0-9_.-]\<close> and strips leading and trailing dots and underscores.

  The fold works character by character on the code points 0 to 255, none of which is a
  combining mark: an ASCII character stays, an accented Latin-1 letter gives its base letter,
  a superscript digit or ordinal indicator its digit or letter, a vulgar fraction its two
  digits (the fraction slash between them is not ASCII), a spacing accent or no-break space
  a space, and every other character nothing. \<open>nfkd_ascii_char\<close> is that table.
\<close>

definition nfkd_ascii_char :: "char \<Rightarrow> string" where
  "nfkd_ascii_char c =
     (let n = ord c in
      if n < 128 then [c]
      else if n = 160 \<or> n = 168 \<or> n = 175 \<or> n = 180 \<or> n = 184 then '' ''
      else if n = 170 \<or> (224 \<le> n \<and> n \<le> 229) then ''a''
      else if n = 178 then ''2''
      else if n = 179 then ''3''
      else if n = 185 then ''1''
      else if n = 186 \<or> (242 \<le> n \<and> n \<le> 246) then ''o''
      else if n = 188 then ''14''
      else if n = 189 then ''12''
      else if n = 190 then ''34''
      else if 192 \<le> n \<and> n \<le> 197 then ''A''
      else if n = 199 then ''C''
      else if 200 \<le> n \<and> n \<le> 203 then ''E''
      else if 204 \<le> n \<and> n \<le> 207 then ''I''
      else if n = 209 then ''N''
      else if 210 \<le> n \<and> n \<le> 214 then ''O''
      else if 217 \<le> n \<and> n \<le> 220 then ''U''
      else if n = 221 then ''Y''
      else if n = 231 then ''c''
      else if 232 \<le> n \<and> n \<le> 235 then ''e''
      else if 236 \<le> n \<and> n \<le> 239 then ''i''
      else if n = 241 then ''n''
      else if 249 \<le> n \<and> n \<le> 252 then ''u''
      else if n = 253 \<or> n = 255 then ''y''
      else [])"

definition nfkd_ascii :: "string \<Rightarrow> string" where
  "nfkd_ascii s = concat (map nfkd_ascii_char s)"

definition secure_filename :: "string \<Rightarrow> string" where
  "secure_filename filename =
     strip ''._''
       (filter filename_char
          (join ''_'' (split_ws (map (\<lambda>c. if c = CHR ''/'' then CHR '' '' else c)
                                   (nfkd_ascii filename)))))"

section \<open>Configuration\<close>

definition GCE_ZONE :: string where
  "GCE_ZONE = ''us-east1-b''"

definition GCE_INSTANCE_NAME :: string where
  "GCE_INSTANCE_NAME = ''transcribe-worker-vm''"

definition GCS_BUCKET_NAME :: string where
  "GCS_BUCKET_NAME = ''shaw-transcripts-20260207''"

definition ALLOWED_EXTENSIONS :: "string set" where
  "ALLOWED_EXTENSIONS =
     {''mp4'', ''mp3'', ''wav'', ''flac'', ''aac'', ''ogg'', ''webm'', ''m4a''}"

text \<open>\<open>allowed_file\<close>: the second conjunct is read only when the name has a dot, as in the
  source's short-circuit \<open>and\<close>.\<close>

definition allowed_file :: "string \<Rightarrow> bool" where
  "allowed_file filename =
     (CHR ''.'' \<in> set filename \<and>
      lower (rsplit1 CHR ''.'' filename ! 1) \<in> ALLOWED_EXTENSIONS)"

section \<open>The clock\<close>

record datetime =
  year :: nat
  month :: nat
  day :: nat
  hour :: nat
  minute :: nat
  second :: nat

text \<open>The ranges that Python's \<open>datetime\<close> class guarantees of every value it builds.\<close>

definition valid_datetime :: "datetime \<Rightarrow> bool" where
  "valid_datetime d =
     (1 \<le> year d \<and> year d \<le> 9999 \<and> 1 \<le> month d \<and> month d \<le> 12 \<and>
      1 \<le> day d \<and> day d \<le> 31 \<and> hour d < 24 \<and> minute d < 60 \<and> second d < 60)"

definition digit :: "nat \<Rightarrow> char" where
  "digit n = char_of (48 + n)"

function dec :: "nat \<Rightarrow> string" where
  "dec n = (if n < 10 then [digit n] else dec (n div 10) @ [digit (n mod 10)])"
  by pat_completeness auto
termination
  by (relation "measure (\<lambda>n. n)") auto

definition zfill :: "nat \<Rightarrow> string \<Rightarrow> string" where
  "zfill w s = replicate (w - length s) CHR ''0'' @ s"

text \<open>\<open>d.strftime("%Y%m%d-%H%M%S")\<close> on the C library of a Linux host: \<open>%Y\<close> is the year in
  decimal without padding, so it has four digits from the year 1000 on and fewer before;
  the other fields are padded to two digits.\<close>

definition strftime :: "datetime \<Rightarrow> string" where
  "strftime d =
     dec (year d) @ zfill 2 (dec (month d)) @ zfill 2 (dec (day d)) @ ''-'' @
     zfill 2 (dec (hour d)) @ zfill 2 (dec (minute d)) @ zfill 2 (dec (second d))"

text \<open>The shape \<open>YYYYMMDD-HHMMSS\<close>: eight digits, a hyphen, six digits.\<close>

definition is_timestamp :: "string \<Rightarrow> bool" where
  "is_timestamp s =
     (length s = 15 \<and> list_all isdigit (take 8 s) \<and> s ! 8 = CHR ''-'' \<and>
      list_all isdigit (drop 9 s))"

section \<open>Requests\<close>

record upload =
  filename :: string
  content_type :: "string option"
  stream :: string

record request =
  form_url :: "string option"
  files_file :: "upload option"

text \<open>Python truthiness: \<open>not url\<close> holds of \<open>None\<close> and of the empty string; a werkzeug
  \<open>FileStorage\<close> is true exactly when its file name is not empty.\<close>

definition truthy_url :: "request \<Rightarrow> bool" where
  "truthy_url r = (case form_url r of None \<Rightarrow> False | Some u \<Rightarrow> u \<noteq> [])"

definition truthy_file :: "request \<Rightarrow> bool" where
  "truthy_file r = (case files_file r of None \<Rightarrow> False | Some f \<Rightarrow> filename f \<noteq> [])"

section \<open>Deriving the job identifier\<close>

text \<open>\<open>re.sub(r'https?://', '', url)\<close>: every match, left to right, is deleted.\<close>

fun strip_scheme :: "string \<Rightarrow> string" where
  "strip_scheme [] = []"
| "strip_scheme (c # cs) =
     (if prefix ''https://'' (c # cs) then strip_scheme (drop 7 cs)
      else if prefix ''http://'' (c # cs) then strip_scheme (drop 6 cs)
      else c # strip_scheme cs)"

text \<open>\<open>re.sub(r'[^a-zA-Z0-9_.-]', '_', s)\<close>.\<close>

definition underscore_unsafe :: "string \<Rightarrow> string" where
  "underscore_unsafe s = map (\<lambda>c. if filename_char c then c else CHR ''_'') s"

text \<open>Lines 237 to 243: the base name of the job.\<close>

definition source_base_name :: "request \<Rightarrow> string" where
  "source_base_name r =
     (if truthy_file r then rsplit1 CHR ''.'' (secure_filename (filename (the (files_file r)))) ! 0
      else if truthy_url r then take 50 (underscore_unsafe (strip_scheme (the (form_url r))))
      else ''untitled'')"

text \<open>Line 245.\<close>

definition transcription_id :: "request \<Rightarrow> datetime \<Rightarrow> string" where
  "transcription_id r d = source_base_name r @ ''_'' @ strftime d"

section \<open>The object store, the worker VM and their failures\<close>

record blob =
  data :: string
  blob_content_type :: "string option"

text \<open>The calls that change the bucket or address the compute API, with their arguments:
  \<open>blob.upload_from_file\<close>, \<open>instances().get\<close>, \<open>instances().setMetadata\<close> (project, zone,
  instance, fingerprint, items) and \<open>instances().start\<close>.\<close>

datatype call =
    Upload string blob
  | InstancesGet "string option" string string
  | SetMetadata "string option" string string string "(string \<times> string option) list"
  | InstancesStart "string option" string string

text \<open>Each gateway call either returns or raises; \<open>Some e\<close> is the text of the exception
  that the call raises in this run. \<open>get_exc\<close> covers the call and the lookup of
  \<open>['metadata']['fingerprint']\<close> in its answer.\<close>

record faults =
  upload_exc :: "string option"
  get_exc :: "string option"
  set_metadata_exc :: "string option"
  start_exc :: "string option"
  list_exc :: "string option"
  exists_exc :: "string option"
  download_exc :: "string option"

text \<open>The bucket is an association list in listing order. \<open>calls\<close> records every upload
  and compute call attempted so far, oldest first.\<close>

record world =
  now :: datetime
  GCP_PROJECT_ID :: "string option"
  HUGGING_FACE_TOKEN :: "string option"
  objects :: "(string \<times> blob) list"
  fingerprint :: string
  vm_metadata :: "(string \<times> string option) list"
  vm_started :: bool
  calls :: "call list"
  faults :: faults

fun put_object :: "string \<Rightarrow> blob \<Rightarrow> (string \<times> blob) list \<Rightarrow> (string \<times> blob) list" where
  "put_object p b [] = [(p, b)]"
| "put_object p b ((q, x) # rest) =
     (if q = p then (p, b) # rest else (q, x) # put_object p b rest)"

text \<open>\<open>blob.upload_from_file(file.stream, content_type=file.content_type)\<close> after
  \<open>file.stream.seek(0)\<close>: the whole stream is stored; without a declared content type the
  client library falls back to the generic binary type.\<close>

definition stored_blob :: "upload \<Rightarrow> blob" where
  "stored_blob f =
     \<lparr>data = stream f,
      blob_content_type =
        Some (case content_type f of None \<Rightarrow> ''application/octet-stream'' | Some t \<Rightarrow> t)\<rparr>"

definition upload_from_file :: "string \<Rightarrow> upload \<Rightarrow> world \<Rightarrow> string option \<times> world" where
  "upload_from_file path f w =
     (let b = stored_blob f;
          w1 = w\<lparr>calls := calls w @ [Upload path b]\<rparr>
      in case upload_exc (faults w) of
           Some e \<Rightarrow> (Some e, w1)
         | None \<Rightarrow> (None, w1\<lparr>objects := put_object path b (objects w)\<rparr>))"

section \<open>Responses\<close>

record transcription =
  name :: string
  download_url :: string

datatype body =
    Text string
  | Json_list "transcription list"
  | Json_error string
  | Bytes string

record response =
  status :: nat
  body :: body
  mimetype :: string
  attachment :: "string option"

text \<open>A view that returns \<open>(text, status)\<close>, and \<open>jsonify\<close>.\<close>

definition text_response :: "string \<Rightarrow> nat \<Rightarrow> response" where
  "text_response s code = \<lparr>status = code, body = Text s, mimetype = ''text/html'', attachment = None\<rparr>"

definition jsonify :: "body \<Rightarrow> nat \<Rightarrow> response" where
  "jsonify j code = \<lparr>status = code, body = j, mimetype = ''application/json'', attachment = None\<rparr>"

section \<open>POST /transcribe\<close>

definition metadata_items :: "string \<Rightarrow> string \<Rightarrow> world \<Rightarrow> (string \<times> string option) list" where
  "metadata_items input_source_for_vm tid w =
     [(''gcs-input-path'', Some input_source_for_vm),
      (''gcs-output-bucket'', Some GCS_BUCKET_NAME),
      (''huggingface-token'', HUGGING_FACE_TOKEN w),
      (''transcription-id'', Some tid)]"

definition failed_message :: "string \<Rightarrow> string" where
  "failed_message e = ''Failed to initiate transcription: '' @ e"

definition initiated_message :: "string \<Rightarrow> string" where
  "initiated_message tid =
     ''Transcription job '' @ [CHR 0x27] @ tid @ [CHR 0x27] @ '' initiated. The VM is spinning up.''"

text \<open>Lines 266 to 299, the \<open>try\<close> block: fetch the fingerprint, set the metadata, start
  the instance; the first exception ends the block with a 500.\<close>

definition vm_steps :: "string \<Rightarrow> string \<Rightarrow> world \<Rightarrow> response \<times> world" where
  "vm_steps input_source_for_vm tid w =
     (let items = metadata_items input_source_for_vm tid w;
          w1 = w\<lparr>calls := calls w @ [InstancesGet (GCP_PROJECT_ID w) GCE_ZONE GCE_INSTANCE_NAME]\<rparr>
      in case get_exc (faults w) of
           Some e \<Rightarrow> (text_response (failed_message e) 500, w1)
         | None \<Rightarrow>
            (let w2 = w1\<lparr>calls := calls w1 @
                        [SetMetadata (GCP_PROJECT_ID w) GCE_ZONE GCE_INSTANCE_NAME
                           (fingerprint w) items]\<rparr>
             in case set_metadata_exc (faults w) of
                  Some e \<Rightarrow> (text_response (failed_message e) 500, w2)
                | None \<Rightarrow>
                   (let w3 = w2\<lparr>vm_metadata := items,
                                calls := calls w2 @
                                  [InstancesStart (GCP_PROJECT_ID w) GCE_ZONE GCE_INSTANCE_NAME]\<rparr>
                    in case start_exc (faults w) of
                         Some e \<Rightarrow> (text_response (failed_message e) 500, w3)
                       | None \<Rightarrow>
                          (text_response (initiated_message tid) 200,
                           w3\<lparr>vm_started := True\<rparr>))))"

text \<open>The view. \<open>Inl e\<close> is an exception that leaves the view uncaught: the upload is
  outside the \<open>try\<close> block.\<close>

definition transcribe :: "request \<Rightarrow> world \<Rightarrow> (string + response) \<times> world" where
  "transcribe r w =
     (if \<not> truthy_url r \<and> \<not> truthy_file r
      then (Inr (text_response ''No URL or file provided'' 400), w)
      else
        (let tid = transcription_id r (now w)
         in if truthy_file r
            then
              (let f = the (files_file r)
               in if \<not> allowed_file (filename f)
                  then (Inr (text_response ''Invalid file type'' 400), w)
                  else
                    (let gcs_file_path = tid @ ''/'' @ secure_filename (filename f)
                     in case upload_from_file gcs_file_path f w of
                          (Some e, w1) \<Rightarrow> (Inl e, w1)
                        | (None, w1) \<Rightarrow>
                            apfst Inr
                              (vm_steps (''gs://'' @ GCS_BUCKET_NAME @ ''/'' @ gcs_file_path)
                                 tid w1)))
            else if truthy_url r
            then apfst Inr (vm_steps (the (form_url r)) tid w)
            else apfst Inr (vm_steps [] tid w)))"

section \<open>GET /transcriptions\<close>

text \<open>\<open>list_blobs(bucket, delimiter='/')\<close> answers, over its pages, each first-level prefix
  once; \<open>list_blobs(bucket, prefix=p)\<close> answers the objects whose names start with \<open>p\<close>.\<close>

definition list_prefixes :: "world \<Rightarrow> string list" where
  "list_prefixes w =
     remdups (map (\<lambda>n. takeWhile (\<lambda>c. c \<noteq> CHR ''/'') n @ ''/'')
                (filter (\<lambda>n. CHR ''/'' \<in> set n) (map fst (objects w))))"

definition list_blobs_prefix :: "string \<Rightarrow> world \<Rightarrow> string list" where
  "list_blobs_prefix p w = filter (prefix p) (map fst (objects w))"

text \<open>\<open>xs.sort(key=..., reverse=True)\<close>: stable, descending.\<close>

definition sort_reverse :: "transcription list \<Rightarrow> transcription list" where
  "sort_reverse xs = rev (sort_key name (rev xs))"

definition folder_entry :: "(string \<Rightarrow> string) \<Rightarrow> world \<Rightarrow> string \<Rightarrow> transcription list" where
  "folder_entry url_for_download w p =
     (case find (\<lambda>n. endswith n ''.txt'') (list_blobs_prefix p w) of
        None \<Rightarrow> []
      | Some n \<Rightarrow> [\<lparr>name = butlast p, download_url = url_for_download n\<rparr>])"

text \<open>\<open>url_for_download\<close> is Flask's \<open>url_for('download_file', path=..., _external=True)\<close>.\<close>

definition list_transcriptions :: "(string \<Rightarrow> string) \<Rightarrow> world \<Rightarrow> response" where
  "list_transcriptions url_for_download w =
     (case list_exc (faults w) of
        Some e \<Rightarrow> jsonify (Json_error e) 500
      | None \<Rightarrow>
          jsonify (Json_list (sort_reverse
                     (concat (map (folder_entry url_for_download w) (list_prefixes w))))) 200)"

section \<open>GET /download/<path>\<close>

text \<open>\<open>blob.exists()\<close> decides between 404 and the download. The arguments of the
  response are evaluated from left to right: \<open>blob.download_as_bytes()\<close> first, which also
  fills the blob's properties from the answer, then \<open>blob.content_type\<close>, whose empty or
  missing value gives way to \<open>application/octet-stream\<close>.\<close>

definition download_file :: "string \<Rightarrow> world \<Rightarrow> response" where
  "download_file path w =
     (case exists_exc (faults w) of
        Some e \<Rightarrow> text_response (''Failed to serve file: '' @ e) 500
      | None \<Rightarrow>
         (case map_of (objects w) path of
            None \<Rightarrow> text_response ''File not found'' 404
          | Some b \<Rightarrow>
             (case download_exc (faults w) of
                Some e \<Rightarrow> text_response (''Failed to serve file: '' @ e) 500
              | None \<Rightarrow>
                 \<lparr>status = 200, body = Bytes (data b),
                  mimetype =
                    (case blob_content_type b of
                       None \<Rightarrow> ''application/octet-stream''
                     | Some t \<Rightarrow> if t \<noteq> [] then t else ''application/octet-stream''),
                  attachment = Some (basename path)\<rparr>)))"

section \<open>The embedded page\<close>

text \<open>The click handler of the page served at \<open>/\<close> (lines 135 to 158): it shows an error,
  or posts the form fields to \<open>/transcribe\<close>.\<close>

record js_file =
  file_name :: string
  file_size :: nat

definition click_transcribe :: "string \<Rightarrow> js_file option \<Rightarrow> string + (string option \<times> js_file option)" where
  "click_transcribe url_value chosen =
     (let u = (if url_value \<noteq> [] then Some url_value else None)
      in case chosen of
           Some f \<Rightarrow>
             (if file_size f > 16 * 1024 * 1024 then Inl ''File size exceeds 16MB limit.''
              else Inr (u, Some f))
         | None \<Rightarrow>
             (if u = None then Inl ''Please provide a URL or upload a file.''
              else Inr (u, None)))"

section \<open>Vocabulary of the statements\<close>

text \<open>The calls that a request added to the record of calls.\<close>

definition new_calls :: "world \<Rightarrow> world \<Rightarrow> call list" where
  "new_calls w w' = drop (length (calls w)) (calls w')"

fun set_metadata_items :: "call \<Rightarrow> (string \<times> string option) list list" where
  "set_metadata_items (SetMetadata p z i fp items) = [items]"
| "set_metadata_items c = []"

text \<open>The item lists of the metadata-set calls among some calls, in order.\<close>

definition metadata_sets :: "call list \<Rightarrow> (string \<times> string option) list list" where
  "metadata_sets cs = concat (map set_metadata_items cs)"

fun is_start :: "call \<Rightarrow> bool" where
  "is_start (InstancesStart p z i) = True"
| "is_start c = False"

text \<open>The three compute calls of a run in which none raises.\<close>

definition vm_calls :: "string \<Rightarrow> string \<Rightarrow> world \<Rightarrow> call list" where
  "vm_calls src tid w =
     [InstancesGet (GCP_PROJECT_ID w) GCE_ZONE GCE_INSTANCE_NAME,
      SetMetadata (GCP_PROJECT_ID w) GCE_ZONE GCE_INSTANCE_NAME (fingerprint w)
        (metadata_items src tid w),
      InstancesStart (GCP_PROJECT_ID w) GCE_ZONE GCE_INSTANCE_NAME]"

text \<open>The object name \<open><job-id>/<sanitized-filename>\<close> of an upload and its URI
  \<open>gs://<bucket>/<job-id>/<sanitized-filename>\<close>.\<close>

definition gcs_file_path :: "request \<Rightarrow> world \<Rightarrow> string" where
  "gcs_file_path r w =
     transcription_id r (now w) @ ''/'' @ secure_filename (filename (the (files_file r)))"

definition gcs_uri :: "request \<Rightarrow> world \<Rightarrow> string" where
  "gcs_uri r w = ''gs://'' @ GCS_BUCKET_NAME @ ''/'' @ gcs_file_path r w"

text \<open>The exception of the first compute step that raises, if one does.\<close>

definition first_vm_exc :: "faults \<Rightarrow> string option" where
  "first_vm_exc f =
     (case get_exc f of
        Some e \<Rightarrow> Some e
      | None \<Rightarrow> (case set_metadata_exc f of Some e \<Rightarrow> Some e | None \<Rightarrow> start_exc f))"

definition vm_progress :: "faults \<Rightarrow> nat" where
  "vm_progress f =
     (if get_exc f \<noteq> None then 1 else if set_metadata_exc f \<noteq> None then 2 else 3)"

text \<open>A run without exceptions, and a bucket with two job folders of which only the second
  holds a text file.\<close>

definition no_faults :: faults where
  "no_faults =
     \<lparr>upload_exc = None, get_exc = None, set_metadata_exc = None, start_exc = None,
      list_exc = None, exists_exc = None, download_exc = None\<rparr>"

definition sample_world :: world where
  "sample_world =
     \<lparr>now = \<lparr>year = 2024, month = 1, day = 2, hour = 3, minute = 4, second = 5\<rparr>,
      GCP_PROJECT_ID = Some ''proj'', HUGGING_FACE_TOKEN = Some ''tok'',
      objects =
        [(''a_20240101-000000/in.mp3'', \<lparr>data = ''x'', blob_content_type = None\<rparr>),
         (''b_20240102-000000/in.mp3'', \<lparr>data = ''x'', blob_content_type = None\<rparr>),
         (''b_20240102-000000/result.txt'',
          \<lparr>data = ''hello'', blob_content_type = Some ''text/plain''\<rparr>)],
      fingerprint = ''fp'', vm_metadata = [], vm_started = False, calls = [],
      faults = no_faults\<rparr>"

definition talk_upload :: upload where
  "talk_upload = \<lparr>filename = ''talk.mp3'', content_type = Some ''audio/mpeg'', stream = ''ID3''\<rparr>"

text \<open>The same world, except that starting the instance raises.\<close>

definition start_fails :: world where
  "start_fails = sample_world\<lparr>faults := no_faults\<lparr>start_exc := Some ''quota exceeded''\<rparr>\<rparr>"

text \<open>The first-level folders of the bucket (the part of an object name before its first
  slash, for the names that have one), and the text files under a folder in listing order.\<close>

definition first_level_folders :: "world \<Rightarrow> string list" where
  "first_level_folders w =
     map (takeWhile (\<lambda>c. c \<noteq> CHR ''/''))
       (filter (\<lambda>n. CHR ''/'' \<in> set n) (map fst (objects w)))"

definition txt_objects :: "string \<Rightarrow> world \<Rightarrow> string list" where
  "txt_objects folder w =
     filter (\<lambda>n. prefix (folder @ ''/'') n \<and> endswith n ''.txt'') (map fst (objects w))"

text \<open>The base name of a URL job as the specification words it: the scheme stripped, every
  character that is not alphanumeric replaced by an underscore, the first 50 characters kept.\<close>

definition spec_strip_scheme :: "string \<Rightarrow> string" where
  "spec_strip_scheme u =
     (if prefix ''https://'' u then drop 8 u else if prefix ''http://'' u then drop 7 u else u)"

definition spec_url_base_name :: "string \<Rightarrow> string" where
  "spec_url_base_name u =
     take 50 (map (\<lambda>c. if isalnum c then c else CHR ''_'') (spec_strip_scheme u))"

text \<open>Whether \<open>https?://\<close> matches somewhere in a string.\<close>

fun has_scheme :: "string \<Rightarrow> bool" where
  "has_scheme [] = False"
| "has_scheme (c # cs) =
     (prefix ''https://'' (c # cs) \<or> prefix ''http://'' (c # cs) \<or> has_scheme cs)"

text \<open>The job identifier as the specification's testable property words it: the base name
  directly followed by the timestamp.\<close>

definition spec_transcription_id :: "request \<Rightarrow> datetime \<Rightarrow> string" where
  "spec_transcription_id r d = source_base_name r @ strftime d"

text \<open>An upload of one byte more than 16 MiB.\<close>

definition oversized_upload :: upload where
  "oversized_upload =
     \<lparr>filename = ''talk.mp3'', content_type = Some ''audio/mpeg'',
      stream = replicate (16 * 1024 * 1024 + 1) (CHR 0x00)\<rparr>"

section \<open>Facts about the submission view\<close>

lemma allowed_file_nonempty: "allowed_file fn \<Longrightarrow> fn \<noteq> []"
  by (auto simp: allowed_file_def)

lemma map_of_put_object: "map_of (put_object p b xs) p = Some b"
  by (induction xs) auto

lemma vm_steps_ok_faults:
  "status (fst (vm_steps src tid w)) = 200 \<Longrightarrow>
   get_exc (faults w) = None \<and> set_metadata_exc (faults w) = None \<and> start_exc (faults w) = None"
  by (simp add: vm_steps_def Let_def text_response_def split: option.splits)

lemma vm_steps_ok:
  assumes "get_exc (faults w) = None" "set_metadata_exc (faults w) = None"
    "start_exc (faults w) = None"
  shows "vm_steps src tid w =
     (text_response (initiated_message tid) 200,
      w\<lparr>vm_metadata := metadata_items src tid w, calls := calls w @ vm_calls src tid w,
        vm_started := True\<rparr>)"
  using assms by (simp add: vm_steps_def Let_def vm_calls_def)

lemma vm_steps_objects: "objects (snd (vm_steps s t w)) = objects w"
  by (simp add: vm_steps_def Let_def split: option.splits)

lemma vm_steps_calls:
  "calls (snd (vm_steps s t w)) = calls w @ take (vm_progress (faults w)) (vm_calls s t w)"
  by (simp add: vm_steps_def Let_def vm_calls_def vm_progress_def split: option.splits)

lemma vm_steps_failed:
  "first_vm_exc (faults w) = Some e \<Longrightarrow>
   fst (vm_steps s t w) = text_response (failed_message e) 500"
  by (simp add: vm_steps_def Let_def first_vm_exc_def split: option.splits)

lemma upload_eq:
  "upload_from_file p f w =
     (upload_exc (faults w),
      if upload_exc (faults w) = None
      then w\<lparr>calls := calls w @ [Upload p (stored_blob f)],
              objects := put_object p (stored_blob f) (objects w)\<rparr>
      else w\<lparr>calls := calls w @ [Upload p (stored_blob f)]\<rparr>)"
  by (simp add: upload_from_file_def Let_def split: option.splits)

lemma transcribe_file:
  assumes "files_file r = Some f" "allowed_file (filename f)"
  shows "transcribe r w =
     (case upload_exc (faults w) of
        Some e \<Rightarrow> (Inl e, w\<lparr>calls := calls w @ [Upload (gcs_file_path r w) (stored_blob f)]\<rparr>)
      | None \<Rightarrow>
          apfst Inr (vm_steps (gcs_uri r w) (transcription_id r (now w))
            (w\<lparr>calls := calls w @ [Upload (gcs_file_path r w) (stored_blob f)],
               objects := put_object (gcs_file_path r w) (stored_blob f) (objects w)\<rparr>)))"
  using assms allowed_file_nonempty[OF assms(2)]
  by (simp add: transcribe_def truthy_file_def Let_def upload_eq gcs_file_path_def gcs_uri_def
      split: option.splits)

lemma transcribe_url:
  assumes "\<not> truthy_file r" "truthy_url r"
  shows "transcribe r w = apfst Inr (vm_steps (the (form_url r)) (transcription_id r (now w)) w)"
  using assms by (simp add: transcribe_def Let_def)

lemma transcribe_rejects:
  assumes "files_file r = Some f" "filename f \<noteq> []" "\<not> allowed_file (filename f)"
  shows "transcribe r w = (Inr (text_response ''Invalid file type'' 400), w)"
  using assms by (simp add: transcribe_def truthy_file_def)

lemma metadata_sets_vm_calls [simp]:
  "metadata_sets (vm_calls s t w) = [metadata_items s t w]"
  by (simp add: metadata_sets_def vm_calls_def)

lemma starts_vm_calls [simp]:
  "filter is_start (vm_calls s t w) =
     [InstancesStart (GCP_PROJECT_ID w) GCE_ZONE GCE_INSTANCE_NAME]"
  by (simp add: vm_calls_def)

lemma input_path_item [simp]:
  "map_of (metadata_items s t w) ''gcs-input-path'' = Some (Some s)"
  by (simp add: metadata_items_def)

lemma metadata_items_upd [simp]:
  "metadata_items s t (w\<lparr>calls := c\<rparr>) = metadata_items s t w"
  "metadata_items s t (w\<lparr>objects := ob\<rparr>) = metadata_items s t w"
  by (simp_all add: metadata_items_def)

lemma vm_calls_upd [simp]:
  "vm_calls s t (w\<lparr>calls := c\<rparr>) = vm_calls s t w"
  "vm_calls s t (w\<lparr>objects := ob\<rparr>) = vm_calls s t w"
  by (simp_all add: vm_calls_def)

lemma allowed_talk: "allowed_file ''talk.mp3''"
  by (simp add: allowed_file_def rsplit1_def lower_def lower_char_def isupper_def ord_def
      ALLOWED_EXTENSIONS_def)

lemma not_allowed_exe: "\<not> allowed_file ''setup.exe''"
  by (simp add: allowed_file_def rsplit1_def lower_def lower_char_def isupper_def ord_def
      ALLOWED_EXTENSIONS_def)

lemma sample_faults [simp]: "faults sample_world = no_faults"
  by (simp add: sample_world_def)

lemma no_faults_simps [simp]:
  "upload_exc no_faults = None" "get_exc no_faults = None" "set_metadata_exc no_faults = None"
  "start_exc no_faults = None" "list_exc no_faults = None" "exists_exc no_faults = None"
  "download_exc no_faults = None"
  by (simp_all add: no_faults_def)

section \<open>Claims about POST /transcribe\<close>

text \<open>
  C9. A request that supplies neither a URL nor a file (each absent or empty, as Python's
  \<open>not\<close> reads them) is answered with status 400 and the message of line 233, and the world
  is left as it was: no upload and no compute call is recorded.
\<close>

theorem transcribe_no_input:
  "\<not> truthy_url r \<Longrightarrow> \<not> truthy_file r \<Longrightarrow>
   fst (transcribe r w) = Inr (text_response ''No URL or file provided'' 400) \<and>
   status (text_response ''No URL or file provided'' 400) = 400 \<and>
   new_calls w (snd (transcribe r w)) = [] \<and> snd (transcribe r w) = w"
  by (simp add: transcribe_def new_calls_def text_response_def)

theorem transcribe_no_input_witness:
  "\<not> truthy_url \<lparr>form_url = Some [], files_file = None\<rparr> \<and>
   \<not> truthy_file \<lparr>form_url = Some [], files_file = None\<rparr> \<and>
   fst (transcribe \<lparr>form_url = Some [], files_file = None\<rparr> sample_world) =
     Inr (text_response ''No URL or file provided'' 400) \<and>
   snd (transcribe \<lparr>form_url = Some [], files_file = None\<rparr> sample_world) = sample_world"
  using transcribe_no_input [of "\<lparr>form_url = Some [], files_file = None\<rparr>" sample_world]
  by (simp add: truthy_url_def truthy_file_def)

text \<open>
  C8. A request whose uploaded file has a name that \<open>allowed_file\<close> refuses is answered with
  status 400 and the message of line 252, whatever the URL field holds, and the world is left
  as it was: no upload, no metadata fetch, no metadata set, no start.
\<close>

theorem transcribe_disallowed:
  "files_file r = Some f \<Longrightarrow> filename f \<noteq> [] \<Longrightarrow> \<not> allowed_file (filename f) \<Longrightarrow>
   fst (transcribe r w) = Inr (text_response ''Invalid file type'' 400) \<and>
   status (text_response ''Invalid file type'' 400) = 400 \<and>
   new_calls w (snd (transcribe r w)) = [] \<and> snd (transcribe r w) = w"
  by (simp add: transcribe_rejects new_calls_def text_response_def)

theorem transcribe_disallowed_witness:
  "filename \<lparr>filename = ''setup.exe'', content_type = None, stream = ''MZ''\<rparr> \<noteq> [] \<and>
   \<not> allowed_file ''setup.exe'' \<and>
   fst (transcribe \<lparr>form_url = Some ''https://example.com/a'',
          files_file = Some \<lparr>filename = ''setup.exe'', content_type = None, stream = ''MZ''\<rparr>\<rparr>
        sample_world) = Inr (text_response ''Invalid file type'' 400) \<and>
   snd (transcribe \<lparr>form_url = Some ''https://example.com/a'',
          files_file = Some \<lparr>filename = ''setup.exe'', content_type = None, stream = ''MZ''\<rparr>\<rparr>
        sample_world) = sample_world"
  using transcribe_disallowed
    [of "\<lparr>form_url = Some ''https://example.com/a'',
          files_file = Some \<lparr>filename = ''setup.exe'', content_type = None, stream = ''MZ''\<rparr>\<rparr>"
        "\<lparr>filename = ''setup.exe'', content_type = None, stream = ''MZ''\<rparr>" sample_world]
    not_allowed_exe
  by simp

text \<open>
  C1. When the view answers 200, the calls it added contain exactly one metadata-set call and
  exactly one start call; the item \<open>gcs-input-path\<close> of that metadata-set call is the URI
  \<open>gs://<bucket>/<job-id>/<sanitized-filename>\<close> when a file was given and the submitted URL
  otherwise; and in the file case the bucket holds the uploaded bytes under that object name.
\<close>

theorem transcribe_success_calls:
  assumes "transcribe r w = (Inr resp, w')" and "status resp = 200"
  shows "\<exists>items. metadata_sets (new_calls w w') = [items] \<and>
           map_of items ''gcs-input-path'' =
             Some (Some (if truthy_file r then gcs_uri r w else the (form_url r))) \<and>
           length (filter is_start (new_calls w w')) = 1 \<and>
           (truthy_file r \<longrightarrow>
              map_of (objects w') (gcs_file_path r w) = Some (stored_blob (the (files_file r))))"
proof (cases "truthy_file r")
  case True
  then obtain f where f: "files_file r = Some f" "filename f \<noteq> []"
    by (auto simp: truthy_file_def split: option.splits)
  have al: "allowed_file (filename f)"
  proof (rule ccontr)
    assume na: "\<not> allowed_file (filename f)"
    from transcribe_rejects[OF f na, of w] assms show False
      by (simp add: text_response_def)
  qed
  let ?w1 = "w\<lparr>calls := calls w @ [Upload (gcs_file_path r w) (stored_blob f)],
               objects := put_object (gcs_file_path r w) (stored_blob f) (objects w)\<rparr>"
  let ?tid = "transcription_id r (now w)"
  from assms(1) have up: "upload_exc (faults w) = None"
    and vs: "vm_steps (gcs_uri r w) ?tid ?w1 = (resp, w')"
    by (auto simp: transcribe_file[OF f(1) al] apfst_def map_prod_def
        split: option.splits prod.splits)
  from vs assms(2) have ok: "get_exc (faults ?w1) = None" "set_metadata_exc (faults ?w1) = None"
      "start_exc (faults ?w1) = None"
    using vm_steps_ok_faults[of "gcs_uri r w" ?tid ?w1] by simp_all
  from vs vm_steps_ok[OF ok, of "gcs_uri r w" ?tid]
  have w': "w' = ?w1\<lparr>vm_metadata := metadata_items (gcs_uri r w) ?tid ?w1,
                     calls := calls ?w1 @ vm_calls (gcs_uri r w) ?tid ?w1, vm_started := True\<rparr>"
    by simp
  have nc: "new_calls w w' =
      Upload (gcs_file_path r w) (stored_blob f) # vm_calls (gcs_uri r w) ?tid w"
    by (simp add: w' new_calls_def)
  have ob: "objects w' = put_object (gcs_file_path r w) (stored_blob f) (objects w)"
    by (simp add: w')
  show ?thesis
    using True f by (simp add: nc ob metadata_sets_def map_of_put_object vm_calls_def)
next
  case False
  with assms have tu: "truthy_url r"
    by (auto simp: transcribe_def text_response_def split: if_splits)
  let ?tid = "transcription_id r (now w)"
  from assms(1) have vs: "vm_steps (the (form_url r)) ?tid w = (resp, w')"
    by (auto simp: transcribe_url[OF False tu] apfst_def map_prod_def split: prod.splits)
  from vs assms(2) have ok: "get_exc (faults w) = None" "set_metadata_exc (faults w) = None"
      "start_exc (faults w) = None"
    using vm_steps_ok_faults[of "the (form_url r)" ?tid w] by simp_all
  from vs vm_steps_ok[OF ok, of "the (form_url r)" ?tid]
  have w': "w' = w\<lparr>vm_metadata := metadata_items (the (form_url r)) ?tid w,
                     calls := calls w @ vm_calls (the (form_url r)) ?tid w, vm_started := True\<rparr>"
    by simp
  have nc: "new_calls w w' = vm_calls (the (form_url r)) ?tid w"
    by (simp add: w' new_calls_def)
  show ?thesis
    using False by (simp add: nc)
qed

theorem transcribe_success_calls_witness:
  "\<exists>resp w'.
     transcribe \<lparr>form_url = None, files_file = Some talk_upload\<rparr> sample_world = (Inr resp, w') \<and>
     status resp = 200 \<and>
     (\<exists>items. metadata_sets (new_calls sample_world w') = [items] \<and>
        map_of items ''gcs-input-path'' =
          Some (Some (gcs_uri \<lparr>form_url = None, files_file = Some talk_upload\<rparr> sample_world)) \<and>
        length (filter is_start (new_calls sample_world w')) = 1 \<and>
        map_of (objects w')
          (gcs_file_path \<lparr>form_url = None, files_file = Some talk_upload\<rparr> sample_world) =
          Some (stored_blob talk_upload))"
proof -
  let ?r = "\<lparr>form_url = None, files_file = Some talk_upload\<rparr>"
  have al: "allowed_file (filename talk_upload)"
    by (simp add: talk_upload_def allowed_talk)
  have tf: "truthy_file ?r"
    by (simp add: truthy_file_def talk_upload_def)
  obtain resp w' where t: "transcribe ?r sample_world = (Inr resp, w')" and s: "status resp = 200"
    by (simp add: transcribe_file[of ?r talk_upload, OF _ al] vm_steps_ok text_response_def)
  from transcribe_success_calls[OF t s] tf t s show ?thesis
    by simp
qed

text \<open>
  C6. Let a submission reach the compute steps (it has an input, and its file, if any, is
  allowed and was uploaded without an exception), and let \<open>e\<close> be the text of the first
  exception raised by the metadata fetch, the metadata set or the start. Then the view answers
  500 with the body \<open>Failed to initiate transcription: e\<close>, and the uploaded file, if any, is
  still in the bucket under its object name.
\<close>

theorem transcribe_vm_exception:
  assumes "truthy_url r \<or> truthy_file r"
    and "truthy_file r \<longrightarrow>
           allowed_file (filename (the (files_file r))) \<and> upload_exc (faults w) = None"
    and "first_vm_exc (faults w) = Some e"
  shows "fst (transcribe r w) =
           Inr (text_response (''Failed to initiate transcription: '' @ e) 500) \<and>
         status (text_response (''Failed to initiate transcription: '' @ e) 500) = 500 \<and>
         (truthy_file r \<longrightarrow>
            map_of (objects (snd (transcribe r w))) (gcs_file_path r w) =
              Some (stored_blob (the (files_file r))))"
proof (cases "truthy_file r")
  case True
  then obtain f where f: "files_file r = Some f" "filename f \<noteq> []"
    by (auto simp: truthy_file_def split: option.splits)
  with assms(2) True have al: "allowed_file (filename f)" and up: "upload_exc (faults w) = None"
    by simp_all
  show ?thesis
    using True f assms(3)
    by (simp add: transcribe_file[OF f(1) al] up vm_steps_failed vm_steps_objects
        map_of_put_object failed_message_def text_response_def)
next
  case False
  with assms(1) have tu: "truthy_url r" by simp
  show ?thesis
    using False assms(3)
    by (simp add: transcribe_url[OF False tu] vm_steps_failed failed_message_def
        text_response_def)
qed

theorem transcribe_vm_exception_witness:
  "truthy_file \<lparr>form_url = None, files_file = Some talk_upload\<rparr> \<and>
   allowed_file (filename talk_upload) \<and> upload_exc (faults start_fails) = None \<and>
   first_vm_exc (faults start_fails) = Some ''quota exceeded'' \<and>
   fst (transcribe \<lparr>form_url = None, files_file = Some talk_upload\<rparr> start_fails) =
     Inr (text_response ''Failed to initiate transcription: quota exceeded'' 500) \<and>
   map_of (objects (snd (transcribe \<lparr>form_url = None, files_file = Some talk_upload\<rparr> start_fails)))
     (gcs_file_path \<lparr>form_url = None, files_file = Some talk_upload\<rparr> start_fails) =
     Some (stored_blob talk_upload)"
proof -
  let ?r = "\<lparr>form_url = None, files_file = Some talk_upload\<rparr>"
  have tf: "truthy_file ?r"
    by (simp add: truthy_file_def talk_upload_def)
  have al: "allowed_file (filename talk_upload)"
    by (simp add: talk_upload_def allowed_talk)
  have up: "upload_exc (faults start_fails) = None"
    by (simp add: start_fails_def no_faults_def)
  have ex: "first_vm_exc (faults start_fails) = Some ''quota exceeded''"
    by (simp add: start_fails_def no_faults_def first_vm_exc_def)
  from transcribe_vm_exception[of ?r start_fails "''quota exceeded''"] tf al up ex
  show ?thesis by simp
qed

lemma source_base_name_url_irrelevant:
  "truthy_file r \<Longrightarrow> source_base_name (r\<lparr>form_url := u\<rparr>) = source_base_name r"
  by (simp add: source_base_name_def truthy_file_def)

lemma transcribe_url_irrelevant:
  assumes "files_file r = Some f" "allowed_file (filename f)"
  shows "transcribe (r\<lparr>form_url := u\<rparr>) w = transcribe r w"
proof -
  have tf: "truthy_file r"
    using assms allowed_file_nonempty[OF assms(2)] by (simp add: truthy_file_def)
  have id: "transcription_id (r\<lparr>form_url := u\<rparr>) (now w) = transcription_id r (now w)"
    by (simp add: transcription_id_def source_base_name_url_irrelevant[OF tf])
  have p: "gcs_file_path (r\<lparr>form_url := u\<rparr>) w = gcs_file_path r w"
    by (simp add: gcs_file_path_def id)
  have g: "gcs_uri (r\<lparr>form_url := u\<rparr>) w = gcs_uri r w"
    by (simp add: gcs_uri_def p)
  have ff: "files_file (r\<lparr>form_url := u\<rparr>) = Some f" using assms(1) by simp
  show ?thesis
    unfolding transcribe_file[OF ff assms(2)] transcribe_file[OF assms] id p g ..
qed

lemma metadata_sets_take:
  "get_exc f = None \<Longrightarrow>
   metadata_sets (take (vm_progress f) (vm_calls s t w)) = [metadata_items s t w]"
  by (simp add: vm_progress_def vm_calls_def metadata_sets_def)

text \<open>
  C10. When a request carries a non-empty URL and a file that \<open>allowed_file\<close> accepts, the
  view behaves exactly as for the same request without the URL; the base name is the
  sanitized file name up to its last dot; and, when the upload does not raise, the bucket
  holds the file under \<open><job-id>/<sanitized-filename>\<close> and, when the metadata fetch does not
  raise either, the one metadata-set call carries that object's URI as \<open>gcs-input-path\<close>.
\<close>

theorem file_takes_precedence:
  assumes "form_url r = Some u" "u \<noteq> []" "files_file r = Some f" "allowed_file (filename f)"
  shows "transcribe r w = transcribe (r\<lparr>form_url := None\<rparr>) w \<and>
         source_base_name r = rsplit1 CHR ''.'' (secure_filename (filename f)) ! 0 \<and>
         (upload_exc (faults w) = None \<longrightarrow>
            map_of (objects (snd (transcribe r w))) (gcs_file_path r w) = Some (stored_blob f) \<and>
            (get_exc (faults w) = None \<longrightarrow>
               (\<exists>items. metadata_sets (new_calls w (snd (transcribe r w))) = [items] \<and>
                  map_of items ''gcs-input-path'' = Some (Some (gcs_uri r w)))))"
proof -
  have ne: "filename f \<noteq> []" by (rule allowed_file_nonempty[OF assms(4)])
  have a: "transcribe r w = transcribe (r\<lparr>form_url := None\<rparr>) w"
    by (simp add: transcribe_url_irrelevant[OF assms(3,4)])
  have b: "source_base_name r = rsplit1 CHR ''.'' (secure_filename (filename f)) ! 0"
    using assms(3) ne by (simp add: source_base_name_def truthy_file_def)
  have c: "map_of (objects (snd (transcribe r w))) (gcs_file_path r w) = Some (stored_blob f)"
    if "upload_exc (faults w) = None"
    using that by (simp add: transcribe_file[OF assms(3,4)] vm_steps_objects map_of_put_object)
  have d: "\<exists>items. metadata_sets (new_calls w (snd (transcribe r w))) = [items] \<and>
                  map_of items ''gcs-input-path'' = Some (Some (gcs_uri r w))"
    if "upload_exc (faults w) = None" "get_exc (faults w) = None"
    using that
    by (simp add: transcribe_file[OF assms(3,4)] vm_steps_calls new_calls_def
        metadata_sets_def vm_progress_def vm_calls_def)
  from a b c d show ?thesis by blast
qed

theorem file_takes_precedence_witness:
  "allowed_file (filename talk_upload) \<and>
   transcribe \<lparr>form_url = Some ''https://example.com/other.wav'', files_file = Some talk_upload\<rparr>
     sample_world =
   transcribe
     (\<lparr>form_url = Some ''https://example.com/other.wav'', files_file = Some talk_upload\<rparr>
        \<lparr>form_url := None\<rparr>) sample_world \<and>
   source_base_name
     \<lparr>form_url = Some ''https://example.com/other.wav'', files_file = Some talk_upload\<rparr> =
   rsplit1 CHR ''.'' (secure_filename (filename talk_upload)) ! 0 \<and>
   map_of (objects (snd (transcribe
       \<lparr>form_url = Some ''https://example.com/other.wav'', files_file = Some talk_upload\<rparr>
       sample_world)))
     (gcs_file_path
       \<lparr>form_url = Some ''https://example.com/other.wav'', files_file = Some talk_upload\<rparr>
       sample_world) = Some (stored_blob talk_upload)"
proof -
  let ?r = "\<lparr>form_url = Some ''https://example.com/other.wav'', files_file = Some talk_upload\<rparr>"
  have al: "allowed_file (filename talk_upload)"
    by (simp add: talk_upload_def allowed_talk)
  have h1: "form_url ?r = Some ''https://example.com/other.wav''" by simp
  have h2: "''https://example.com/other.wav'' \<noteq> []" by simp
  have h3: "files_file ?r = Some talk_upload" by simp
  have h5: "upload_exc (faults sample_world) = None" by simp
  from file_takes_precedence[OF h1 h2 h3 al, of sample_world] h5 al
  show ?thesis by blast
qed

section \<open>Claims about GET /download\<close>

text \<open>
  C7. When neither the existence check nor the download raises: a path under which the
  bucket holds no object is answered with 404; a path under which it holds an object is
  answered with 200, that object's bytes as the body, and as media type the object's stored
  content type, or \<open>application/octet-stream\<close> when none (or an empty one) is stored.
\<close>

theorem download_file_spec:
  assumes "exists_exc (faults w) = None" and "download_exc (faults w) = None"
  shows "(map_of (objects w) path = None \<longrightarrow>
            download_file path w = text_response ''File not found'' 404 \<and>
            status (download_file path w) = 404) \<and>
         (\<forall>b. map_of (objects w) path = Some b \<longrightarrow>
            status (download_file path w) = 200 \<and>
            body (download_file path w) = Bytes (data b) \<and>
            mimetype (download_file path w) =
              (case blob_content_type b of
                 None \<Rightarrow> ''application/octet-stream''
               | Some t \<Rightarrow> if t = [] then ''application/octet-stream'' else t))"
  using assms by (auto simp: download_file_def text_response_def split: option.splits)

theorem download_file_spec_witness:
  "map_of (objects sample_world) ''missing/result.txt'' = None \<and>
   status (download_file ''missing/result.txt'' sample_world) = 404 \<and>
   map_of (objects sample_world) ''b_20240102-000000/result.txt'' =
     Some \<lparr>data = ''hello'', blob_content_type = Some ''text/plain''\<rparr> \<and>
   status (download_file ''b_20240102-000000/result.txt'' sample_world) = 200 \<and>
   body (download_file ''b_20240102-000000/result.txt'' sample_world) = Bytes ''hello'' \<and>
   mimetype (download_file ''b_20240102-000000/result.txt'' sample_world) = ''text/plain''"
proof -
  have f: "exists_exc (faults sample_world) = None" "download_exc (faults sample_world) = None"
    by simp_all
  have m1: "map_of (objects sample_world) ''missing/result.txt'' = None"
    by (simp add: sample_world_def)
  have m2: "map_of (objects sample_world) ''b_20240102-000000/result.txt'' =
     Some \<lparr>data = ''hello'', blob_content_type = Some ''text/plain''\<rparr>"
    by (simp add: sample_world_def)
  from download_file_spec[OF f, of "''missing/result.txt''", THEN conjunct1, rule_format, OF m1]
  have a: "status (download_file ''missing/result.txt'' sample_world) = 404" by blast
  from download_file_spec[OF f, of "''b_20240102-000000/result.txt''", THEN conjunct2,
      rule_format, OF m2]
  have b: "status (download_file ''b_20240102-000000/result.txt'' sample_world) = 200 \<and>
     body (download_file ''b_20240102-000000/result.txt'' sample_world) = Bytes ''hello'' \<and>
     mimetype (download_file ''b_20240102-000000/result.txt'' sample_world) = ''text/plain''"
    by simp
  from a b m1 m2 show ?thesis by blast
qed

section \<open>Facts about names and timestamps\<close>

declare dec.simps [simp del]

lemma isdigit_digit: "m < 10 \<Longrightarrow> isdigit (digit m)"
  by (simp add: isdigit_def digit_def ord_def)

lemma isdigit_zero: "isdigit CHR ''0''"
  by (simp add: isdigit_def ord_def)

lemma isdigit_dec: "list_all isdigit (dec n)"
proof (induction n rule: dec.induct)
  case (1 n)
  show ?case
  proof (cases "n < 10")
    case True
    then show ?thesis by (simp add: dec.simps[of n] isdigit_digit)
  next
    case False
    with "1" show ?thesis by (simp add: dec.simps[of n] isdigit_digit)
  qed
qed

lemma length_dec: "0 < k \<Longrightarrow> n < 10 ^ k \<Longrightarrow> length (dec n) \<le> k"
proof (induction k arbitrary: n)
  case 0
  then show ?case by simp
next
  case (Suc k)
  show ?case
  proof (cases "n < 10")
    case True
    then show ?thesis by (simp add: dec.simps[of n])
  next
    case False
    then have k: "0 < k" using Suc.prems by (cases k) auto
    have "n div 10 < 10 ^ k" using Suc.prems by (simp add: less_mult_imp_div_less mult.commute)
    from Suc.IH[OF k this] False show ?thesis by (simp add: dec.simps[of n])
  qed
qed

lemma length_dec_lower: "10 ^ k \<le> n \<Longrightarrow> k < length (dec n)"
proof (induction k arbitrary: n)
  case 0
  show ?case by (cases "n < 10") (simp_all add: dec.simps[of n])
next
  case (Suc k)
  from Suc.prems have ge: "10 * 10 ^ k \<le> n" by simp
  have "(1::nat) \<le> 10 ^ k" by simp
  with ge have nl: "\<not> n < 10" by linarith
  from ge have "10 ^ k \<le> n div 10" by linarith
  from Suc.IH[OF this] nl show ?case by (simp add: dec.simps[of n])
qed

lemma length_dec_year: "1000 \<le> n \<Longrightarrow> n \<le> 9999 \<Longrightarrow> length (dec n) = 4"
proof -
  assume lo: "1000 \<le> n" and hi: "n \<le> 9999"
  from hi have "n < 10 ^ 4" by simp
  then have a: "length (dec n) \<le> 4" by (intro length_dec) simp_all
  from lo have "10 ^ 3 \<le> n" by simp
  then have "3 < length (dec n)" by (rule length_dec_lower)
  with a show ?thesis by linarith
qed

lemma length_zfill: "length s \<le> w \<Longrightarrow> length (zfill w s) = w"
  by (simp add: zfill_def)

lemma isdigit_zfill: "list_all isdigit s \<Longrightarrow> list_all isdigit (zfill w s)"
  by (auto simp: zfill_def isdigit_zero list_all_iff)

lemma field_digits:
  "0 < k \<Longrightarrow> n < 10 ^ k \<Longrightarrow>
   length (zfill k (dec n)) = k \<and> list_all isdigit (zfill k (dec n))"
  by (simp add: length_zfill length_dec isdigit_zfill isdigit_dec)

lemma is_timestamp_parts:
  assumes "length x = 8" "length y = 6" "list_all isdigit x" "list_all isdigit y"
  shows "is_timestamp (x @ ''-'' @ y)"
  using assms by (simp add: is_timestamp_def nth_append)

lemma is_timestamp_strftime:
  assumes "valid_datetime d" and "1000 \<le> year d"
  shows "is_timestamp (strftime d)"
proof -
  have "year d \<le> 9999" using assms(1) by (simp add: valid_datetime_def)
  then have y: "length (dec (year d)) = 4 \<and> list_all isdigit (dec (year d))"
    using assms(2) by (simp add: length_dec_year isdigit_dec)
  have m: "length (zfill 2 (dec (month d))) = 2 \<and> list_all isdigit (zfill 2 (dec (month d)))"
    using assms(1) by (intro field_digits) (simp_all add: valid_datetime_def)
  have dd: "length (zfill 2 (dec (day d))) = 2 \<and> list_all isdigit (zfill 2 (dec (day d)))"
    using assms(1) by (intro field_digits) (simp_all add: valid_datetime_def)
  have h: "length (zfill 2 (dec (hour d))) = 2 \<and> list_all isdigit (zfill 2 (dec (hour d)))"
    using assms(1) by (intro field_digits) (simp_all add: valid_datetime_def)
  have mi: "length (zfill 2 (dec (minute d))) = 2 \<and> list_all isdigit (zfill 2 (dec (minute d)))"
    using assms(1) by (intro field_digits) (simp_all add: valid_datetime_def)
  have s: "length (zfill 2 (dec (second d))) = 2 \<and> list_all isdigit (zfill 2 (dec (second d)))"
    using assms(1) by (intro field_digits) (simp_all add: valid_datetime_def)
  let ?x = "dec (year d) @ zfill 2 (dec (month d)) @ zfill 2 (dec (day d))"
  let ?y = "zfill 2 (dec (hour d)) @ zfill 2 (dec (minute d)) @ zfill 2 (dec (second d))"
  have "is_timestamp (?x @ ''-'' @ ?y)"
    using y m dd h mi s by (intro is_timestamp_parts) simp_all
  then show ?thesis by (simp add: strftime_def)
qed

lemma sep_not_filename_char:
  "\<not> filename_char CHR ''/''" "\<not> filename_char CHR 0x5C"
  by (simp_all add: filename_char_def isalnum_def isdigit_def isupper_def islower_def ord_def)

lemma filename_char_not_sep:
  "filename_char c \<Longrightarrow> c \<noteq> CHR ''/'' \<and> c \<noteq> CHR 0x5C"
  using sep_not_filename_char by blast

lemma sep_not_digit: "\<not> isdigit CHR ''/''" "\<not> isdigit CHR 0x5C"
  by (simp_all add: isdigit_def ord_def)

lemma isdigit_not_sep: "isdigit c \<Longrightarrow> c \<noteq> CHR ''/'' \<and> c \<noteq> CHR 0x5C"
  using sep_not_digit by blast

lemma set_strip: "set (strip cs s) \<subseteq> set s"
  by (auto simp: strip_def dest!: set_dropWhileD)

lemma secure_filename_chars: "c \<in> set (secure_filename s) \<Longrightarrow> filename_char c"
  using set_strip[of "''._''"] by (fastforce simp: secure_filename_def)

lemma set_tl_subset: "set (tl ys) \<subseteq> set ys"
  by (cases ys) auto

lemma rsplit1_head_subset: "set (rsplit1 sep s ! 0) \<subseteq> set s"
proof (cases "sep \<in> set s")
  case True
  then have eq: "rsplit1 sep s ! 0 = rev (tl (dropWhile (\<lambda>c. c \<noteq> sep) (rev s)))"
    by (simp add: rsplit1_def)
  have "set (tl (dropWhile (\<lambda>c. c \<noteq> sep) (rev s))) \<subseteq> set (rev s)"
  proof
    fix x assume "x \<in> set (tl (dropWhile (\<lambda>c. c \<noteq> sep) (rev s)))"
    then have "x \<in> set (dropWhile (\<lambda>c. c \<noteq> sep) (rev s))"
      by (rule subsetD[OF set_tl_subset])
    then show "x \<in> set (rev s)" by (rule set_dropWhileD)
  qed
  then show ?thesis unfolding eq by simp
next
  case False
  then show ?thesis by (simp add: rsplit1_def)
qed

lemma zfill_dec_digits: "c \<in> set (zfill k (dec n)) \<Longrightarrow> isdigit c"
  using isdigit_zfill[OF isdigit_dec, of k n] by (simp add: list_all_iff)

lemma dec_digits: "c \<in> set (dec n) \<Longrightarrow> isdigit c"
  using isdigit_dec[of n] by (simp add: list_all_iff)

lemma strftime_chars:
  assumes "c \<in> set (strftime d)"
  shows "isdigit c \<or> c = CHR ''-''"
proof -
  from assms consider
      "c \<in> set (dec (year d))" | "c \<in> set (zfill 2 (dec (month d)))"
    | "c \<in> set (zfill 2 (dec (day d)))" | "c = CHR ''-''"
    | "c \<in> set (zfill 2 (dec (hour d)))" | "c \<in> set (zfill 2 (dec (minute d)))"
    | "c \<in> set (zfill 2 (dec (second d)))"
    unfolding strftime_def set_append by auto
  then show ?thesis
    by cases (simp_all add: zfill_dec_digits dec_digits)
qed

text \<open>
  C4, as the claim words it, fails: the identifier is not the base name directly followed by
  the timestamp, because line 245 puts an underscore between the two.
\<close>

theorem job_id_counterexample:
  "transcription_id \<lparr>form_url = None, files_file = Some talk_upload\<rparr> (now sample_world) \<noteq>
   spec_transcription_id \<lparr>form_url = None, files_file = Some talk_upload\<rparr> (now sample_world)"
  by (simp add: transcription_id_def spec_transcription_id_def)

text \<open>The identifier that the view derives at that input.\<close>

lemma sample_job_id:
  "transcription_id \<lparr>form_url = None, files_file = Some talk_upload\<rparr> (now sample_world) =
     ''talk_20240102-030405''"
  by code_simp

text \<open>Before the year 1000 the clock reading is shorter than \<open>YYYYMMDD-HHMMSS\<close>, because
  \<open>%Y\<close> does not pad the year.\<close>

lemma short_year_timestamp:
  "strftime \<lparr>year = 999, month = 1, day = 2, hour = 3, minute = 4, second = 5\<rparr> =
     ''9990102-030405'' \<and>
   \<not> is_timestamp (strftime \<lparr>year = 999, month = 1, day = 2, hour = 3, minute = 4, second = 5\<rparr>)"
  by code_simp

text \<open>A Latin-1 name is folded to ASCII before it is cleaned.\<close>

lemma secure_filename_latin1: "secure_filename (''caf'' @ [CHR 0xE9] @ ''.mp3'') = ''cafe.mp3''"
  by code_simp

text \<open>
  C4, amended. For an upload that the view accepts, at a clock reading in the ranges of
  \<open>datetime\<close> whose year has four digits (1000 to 9999), the job identifier is the sanitized
  file name up to its last dot, then an underscore, then the clock reading in the shape
  \<open>YYYYMMDD-HHMMSS\<close>; it contains neither a slash nor a backslash.
\<close>

theorem job_id_form:
  assumes "files_file r = Some f" and "allowed_file (filename f)" and "valid_datetime (now w)"
    and "1000 \<le> year (now w)"
  shows "transcription_id r (now w) =
           rsplit1 CHR ''.'' (secure_filename (filename f)) ! 0 @ ''_'' @ strftime (now w) \<and>
         is_timestamp (strftime (now w)) \<and>
         CHR ''/'' \<notin> set (transcription_id r (now w)) \<and>
         CHR 0x5C \<notin> set (transcription_id r (now w))"
proof -
  let ?base = "rsplit1 CHR ''.'' (secure_filename (filename f)) ! 0"
  have ne: "filename f \<noteq> []" by (rule allowed_file_nonempty[OF assms(2)])
  have id: "transcription_id r (now w) = ?base @ ''_'' @ strftime (now w)"
    using assms(1) ne by (simp add: transcription_id_def source_base_name_def truthy_file_def)
  have base: "c \<noteq> CHR ''/'' \<and> c \<noteq> CHR 0x5C" if "c \<in> set ?base" for c
  proof -
    from that have "c \<in> set (secure_filename (filename f))"
      by (rule subsetD[OF rsplit1_head_subset])
    then have "filename_char c" by (rule secure_filename_chars)
    then show ?thesis by (rule filename_char_not_sep)
  qed
  have ts: "c \<noteq> CHR ''/'' \<and> c \<noteq> CHR 0x5C" if "c \<in> set (strftime (now w))" for c
  proof -
    from strftime_chars[OF that] show ?thesis
    proof
      assume "isdigit c" then show ?thesis by (rule isdigit_not_sep)
    next
      assume "c = CHR ''-''" then show ?thesis by simp
    qed
  qed
  have "c \<noteq> CHR ''/'' \<and> c \<noteq> CHR 0x5C" if "c \<in> set (transcription_id r (now w))" for c
    using that base ts unfolding id by auto
  then have "CHR ''/'' \<notin> set (transcription_id r (now w))"
    and "CHR 0x5C \<notin> set (transcription_id r (now w))"
    by blast+
  with id is_timestamp_strftime[OF assms(3) assms(4)] show ?thesis by blast
qed

theorem job_id_form_witness:
  "allowed_file (filename talk_upload) \<and> valid_datetime (now sample_world) \<and>
   1000 \<le> year (now sample_world) \<and>
   transcription_id \<lparr>form_url = None, files_file = Some talk_upload\<rparr> (now sample_world) =
     rsplit1 CHR ''.'' (secure_filename (filename talk_upload)) ! 0 @ ''_'' @
       strftime (now sample_world) \<and>
   is_timestamp (strftime (now sample_world)) \<and>
   CHR ''/'' \<notin> set (transcription_id \<lparr>form_url = None, files_file = Some talk_upload\<rparr>
                      (now sample_world))"
proof -
  have al: "allowed_file (filename talk_upload)"
    by (simp add: talk_upload_def allowed_talk)
  have v: "valid_datetime (now sample_world)"
    by (simp add: sample_world_def valid_datetime_def)
  have y: "1000 \<le> year (now sample_world)"
    by (simp add: sample_world_def)
  have h: "files_file \<lparr>form_url = None, files_file = Some talk_upload\<rparr> = Some talk_upload"
    by simp
  from job_id_form[OF h al v y] al v y show ?thesis by blast
qed

section \<open>Claims about GET /transcriptions\<close>

lemma find_filter:
  "find P xs = (case filter P xs of [] \<Rightarrow> None | x # _ \<Rightarrow> Some x)"
  by (induction xs) auto

lemma folder_entry_slash:
  "folder_entry u w (f @ ''/'') =
     (if txt_objects f w = [] then []
      else [\<lparr>name = f, download_url = u (hd (txt_objects f w))\<rparr>])"
proof -
  have eq: "filter (\<lambda>n. endswith n ''.txt'') (list_blobs_prefix (f @ ''/'') w) = txt_objects f w"
    by (simp add: list_blobs_prefix_def txt_objects_def)
  show ?thesis
    unfolding folder_entry_def find_filter eq
    by (cases "txt_objects f w") (simp_all add: butlast_append)
qed

lemma entries_of_folders:
  "concat (map (folder_entry u w) (map (\<lambda>f. f @ ''/'') fs)) =
     map (\<lambda>f. \<lparr>name = f, download_url = u (hd (txt_objects f w))\<rparr>)
       (filter (\<lambda>f. txt_objects f w \<noteq> []) fs)"
  by (induction fs) (simp_all add: folder_entry_slash)

lemma list_prefixes_folders:
  "list_prefixes w = remdups (map (\<lambda>f. f @ ''/'') (first_level_folders w))"
  by (simp add: list_prefixes_def first_level_folders_def comp_def)

lemma remdups_map_slash:
  "remdups (map (\<lambda>f. f @ ''/'') fs) = map (\<lambda>f. f @ ''/'') (remdups fs)"
  by (induction fs) auto

lemma listed_entries:
  "concat (map (folder_entry u w) (list_prefixes w)) =
     map (\<lambda>f. \<lparr>name = f, download_url = u (hd (txt_objects f w))\<rparr>)
       (filter (\<lambda>f. txt_objects f w \<noteq> []) (remdups (first_level_folders w)))"
  by (simp only: list_prefixes_folders remdups_map_slash entries_of_folders)

lemma sorted_sort_reverse: "sorted (rev (map name (sort_reverse xs)))"
  by (simp add: sort_reverse_def rev_map)

lemma set_sort_reverse: "set (sort_reverse xs) = set xs"
  by (simp add: sort_reverse_def)

lemma distinct_names_sort_reverse:
  "distinct (map name (sort_reverse xs)) = distinct (map name xs)"
  by (simp add: sort_reverse_def distinct_map)

lemma sample_no_list_fault: "list_exc (faults sample_world) = None"
  by simp

text \<open>
  C5. When the listing calls do not raise, the view answers 200 with a list of entries whose
  names are in descending order and pairwise different; the names are exactly the first-level
  folders under which some object name ends in \<open>.txt\<close>; and the link of each entry is built
  from the first such object of its folder in listing order.
\<close>

theorem list_transcriptions_spec:
  assumes "list_exc (faults w) = None"
  shows "\<exists>entries.
           list_transcriptions url_for_download w = jsonify (Json_list entries) 200 \<and>
           sorted (rev (map name entries)) \<and> distinct (map name entries) \<and>
           set (map name entries) =
             {f \<in> set (first_level_folders w). txt_objects f w \<noteq> []} \<and>
           (\<forall>e \<in> set entries.
              download_url e = url_for_download (hd (txt_objects (name e) w)))"
proof -
  let ?mk = "\<lambda>f. \<lparr>name = f, download_url = url_for_download (hd (txt_objects f w))\<rparr>"
  let ?fs = "filter (\<lambda>f. txt_objects f w \<noteq> []) (remdups (first_level_folders w))"
  let ?found = "concat (map (folder_entry url_for_download w) (list_prefixes w))"
  have found: "?found = map ?mk ?fs" by (rule listed_entries)
  have names: "map name ?found = ?fs" by (simp add: found comp_def)
  have a: "list_transcriptions url_for_download w = jsonify (Json_list (sort_reverse ?found)) 200"
    using assms by (simp add: list_transcriptions_def)
  have b: "sorted (rev (map name (sort_reverse ?found)))" by (rule sorted_sort_reverse)
  have c: "distinct (map name (sort_reverse ?found))"
    unfolding distinct_names_sort_reverse names by simp
  have "set (map name (sort_reverse ?found)) = set (map name ?found)"
    by (simp add: set_sort_reverse)
  then have d: "set (map name (sort_reverse ?found)) =
      {f \<in> set (first_level_folders w). txt_objects f w \<noteq> []}"
    unfolding names by auto
  have e: "\<forall>e \<in> set (sort_reverse ?found).
      download_url e = url_for_download (hd (txt_objects (name e) w))"
    unfolding set_sort_reverse found by auto
  from a b c d e show ?thesis by blast
qed

theorem list_transcriptions_spec_witness:
  "list_exc (faults sample_world) = None \<and>
   (\<exists>entries.
      list_transcriptions (\<lambda>p. ''https://app.example/download/'' @ p) sample_world =
        jsonify (Json_list entries) 200 \<and>
      sorted (rev (map name entries)) \<and> distinct (map name entries) \<and>
      set (map name entries) =
        {f \<in> set (first_level_folders sample_world). txt_objects f sample_world \<noteq> []} \<and>
      (\<forall>e \<in> set entries.
         download_url e = ''https://app.example/download/'' @ hd (txt_objects (name e) sample_world)))"
  using list_transcriptions_spec[OF sample_no_list_fault,
      of "\<lambda>p. ''https://app.example/download/'' @ p"] sample_no_list_fault
  by simp

text \<open>The example of the specification: of the folders \<open>a_20240101-000000\<close> (no text file)
  and \<open>b_20240102-000000\<close> (with \<open>result.txt\<close>) only the second is listed.\<close>

lemma list_transcriptions_example:
  "list_transcriptions (\<lambda>p. ''https://app.example/download/'' @ p) sample_world =
     jsonify (Json_list
       [\<lparr>name = ''b_20240102-000000'',
         download_url = ''https://app.example/download/b_20240102-000000/result.txt''\<rparr>]) 200"
  by (simp add: list_transcriptions_def list_prefixes_def folder_entry_def list_blobs_prefix_def
      sample_world_def endswith_def sort_reverse_def suffix_def)

text \<open>The remaining branch of the two read-only views: an exception of a storage call is
  answered with 500 and the text of the exception.\<close>

lemma list_transcriptions_exception:
  "list_exc (faults w) = Some e \<Longrightarrow>
   list_transcriptions url_for_download w = jsonify (Json_error e) 500"
  by (simp add: list_transcriptions_def)

lemma download_file_exception:
  "exists_exc (faults w) = Some e \<Longrightarrow>
   download_file path w = text_response (''Failed to serve file: '' @ e) 500"
  by (simp add: download_file_def)

section \<open>Claims about the base name of a URL job and about the size of an upload\<close>

lemma strip_scheme_no_match: "\<not> has_scheme s \<Longrightarrow> strip_scheme s = s"
  by (induction s) auto

lemma strip_scheme_http: "\<not> has_scheme rest \<Longrightarrow> strip_scheme (''http://'' @ rest) = rest"
  by (simp add: strip_scheme_no_match)

lemma strip_scheme_https: "\<not> has_scheme rest \<Longrightarrow> strip_scheme (''https://'' @ rest) = rest"
  by (simp add: strip_scheme_no_match)

lemma filename_char_underscore: "filename_char CHR ''_''"
  by (simp add: filename_char_def)

lemma underscore_unsafe_chars: "list_all filename_char (underscore_unsafe s)"
  by (induction s) (simp_all add: underscore_unsafe_def filename_char_underscore)

lemma list_all_take: "list_all P xs \<Longrightarrow> list_all P (take n xs)"
  by (auto simp: list_all_iff dest: in_set_takeD)

lemma source_base_name_url:
  assumes "form_url r = Some u" "u \<noteq> []" "\<not> truthy_file r"
  shows "source_base_name r = take 50 (underscore_unsafe (strip_scheme u))"
  using assms by (simp add: source_base_name_def truthy_url_def)

text \<open>
  C3, as the claim words it, fails: for the URL \<open>http://a.b\<close> the view derives \<open>a.b\<close>, where
  replacing every non-alphanumeric character would give \<open>a_b\<close>.
\<close>

theorem url_base_name_counterexample:
  "source_base_name \<lparr>form_url = Some ''http://a.b'', files_file = None\<rparr> = ''a.b'' \<and>
   spec_url_base_name ''http://a.b'' = ''a_b'' \<and>
   source_base_name \<lparr>form_url = Some ''http://a.b'', files_file = None\<rparr> \<noteq>
     spec_url_base_name ''http://a.b''"
  by (simp add: source_base_name_def truthy_url_def truthy_file_def underscore_unsafe_def
      filename_char_def isalnum_def isdigit_def isupper_def islower_def ord_def
      spec_url_base_name_def spec_strip_scheme_def)

text \<open>The wording fails a second way: the code deletes every match of \<open>https?://\<close>, not
  only a leading one.\<close>

lemma url_base_name_inner_scheme:
  "source_base_name \<lparr>form_url = Some ''http://a/http://b'', files_file = None\<rparr> = ''a_b'' \<and>
   spec_url_base_name ''http://a/http://b'' = ''a_http___b''"
  by code_simp

text \<open>
  C3, amended. For a URL-only submission the base name is the URL with every match of
  \<open>https?://\<close> deleted, every character outside \<open>[a-zA-Z0-9_.-]\<close> replaced by an underscore
  (dots, hyphens and underscores are kept), cut to 50 characters. So it has at most 50
  characters, all of that class; and for a URL that is \<open>http://\<close> or \<open>https://\<close> followed by
  a rest without a further match, or that has no match at all, it is that rest (or the URL)
  with the characters replaced and cut to 50.
\<close>

theorem url_base_name_amended:
  assumes "form_url r = Some u" and "u \<noteq> []" and "\<not> truthy_file r"
  shows "source_base_name r = take 50 (underscore_unsafe (strip_scheme u)) \<and>
         length (source_base_name r) \<le> 50 \<and>
         list_all filename_char (source_base_name r) \<and>
         (\<not> has_scheme u \<longrightarrow> source_base_name r = take 50 (underscore_unsafe u)) \<and>
         (\<forall>rest. \<not> has_scheme rest \<and> (u = ''http://'' @ rest \<or> u = ''https://'' @ rest) \<longrightarrow>
            source_base_name r = take 50 (underscore_unsafe rest))"
proof -
  note eq = source_base_name_url[OF assms]
  have a: "length (source_base_name r) \<le> 50" by (simp add: eq)
  have b: "list_all filename_char (source_base_name r)"
    unfolding eq by (rule list_all_take[OF underscore_unsafe_chars])
  have c: "source_base_name r = take 50 (underscore_unsafe u)" if "\<not> has_scheme u"
    by (simp add: eq strip_scheme_no_match[OF that])
  have d: "source_base_name r = take 50 (underscore_unsafe rest)"
    if "\<not> has_scheme rest \<and> (u = ''http://'' @ rest \<or> u = ''https://'' @ rest)" for rest
  proof -
    from that have "strip_scheme u = rest"
      using strip_scheme_http[of rest] strip_scheme_https[of rest] by (elim conjE disjE) simp_all
    then show ?thesis by (simp add: eq)
  qed
  from eq a b c d show ?thesis by blast
qed

theorem url_base_name_amended_witness:
  "\<not> truthy_file \<lparr>form_url = Some ''https://youtu.be/x?v=1'', files_file = None\<rparr> \<and>
   \<not> has_scheme ''youtu.be/x?v=1'' \<and>
   source_base_name \<lparr>form_url = Some ''https://youtu.be/x?v=1'', files_file = None\<rparr> =
     take 50 (underscore_unsafe ''youtu.be/x?v=1'') \<and>
   take 50 (underscore_unsafe ''youtu.be/x?v=1'') = ''youtu.be_x_v_1''"
proof -
  let ?r = "\<lparr>form_url = Some ''https://youtu.be/x?v=1'', files_file = None\<rparr>"
  have h1: "form_url ?r = Some ''https://youtu.be/x?v=1''" by simp
  have h2: "''https://youtu.be/x?v=1'' \<noteq> []" by simp
  have h3: "\<not> truthy_file ?r" by (simp add: truthy_file_def)
  have h4: "\<not> has_scheme ''youtu.be/x?v=1''" by simp
  have ev: "take 50 (underscore_unsafe ''youtu.be/x?v=1'') = ''youtu.be_x_v_1''"
    by (simp add: underscore_unsafe_def filename_char_def isalnum_def isdigit_def isupper_def
        islower_def ord_def)
  from url_base_name_amended[OF h1 h2 h3] h4
  have "source_base_name ?r = take 50 (underscore_unsafe ''youtu.be/x?v=1'')"
    by simp
  with h3 h4 ev show ?thesis by blast
qed

lemma click_transcribe_size_limit:
  "16 * 1024 * 1024 < file_size f \<Longrightarrow>
   click_transcribe url_value (Some f) = Inl ''File size exceeds 16MB limit.''"
  by (simp add: click_transcribe_def)

lemma allowed_oversized: "allowed_file (filename oversized_upload)"
  by (simp add: oversized_upload_def allowed_talk)

text \<open>
  C2. The page refuses to post a chosen file of more than 16 MiB, but the view itself has no
  size test: the upload of 16 MiB and one byte below is stored whole and the job is started.
\<close>

theorem oversized_upload_accepted:
  "16 * 1024 * 1024 < length (stream oversized_upload) \<and>
   allowed_file (filename oversized_upload) \<and>
   status (projr (fst (transcribe \<lparr>form_url = None, files_file = Some oversized_upload\<rparr>
                         sample_world))) = 200 \<and>
   map_of (objects (snd (transcribe \<lparr>form_url = None, files_file = Some oversized_upload\<rparr>
                           sample_world)))
     (gcs_file_path \<lparr>form_url = None, files_file = Some oversized_upload\<rparr> sample_world) =
     Some (stored_blob oversized_upload) \<and>
   data (stored_blob oversized_upload) = stream oversized_upload"
proof -
  let ?r = "\<lparr>form_url = None, files_file = Some oversized_upload\<rparr>"
  have len: "16 * 1024 * 1024 < length (stream oversized_upload)"
    by (simp add: oversized_upload_def)
  have ff: "files_file ?r = Some oversized_upload" by simp
  note t = transcribe_file[OF ff allowed_oversized, of sample_world]
  have st: "status (projr (fst (transcribe ?r sample_world))) = 200"
    by (simp add: t vm_steps_ok text_response_def)
  have ob: "map_of (objects (snd (transcribe ?r sample_world))) (gcs_file_path ?r sample_world) =
      Some (stored_blob oversized_upload)"
    by (simp add: t vm_steps_objects map_of_put_object)
  have da: "data (stored_blob oversized_upload) = stream oversized_upload"
    by (simp add: stored_blob_def)
  from len allowed_oversized st ob da show ?thesis by blast
qed

end
